theory Spec2Isabelle
  imports Complex_Main
begin

section \<open>NumPy scalars\<close>

text \<open>
  A float64 is modelled as an exact real or one of the three IEEE special values.
  Rounding, overflow of a finite operation to infinity and the sign of zero are not
  modelled: zero is taken as \<open>+0.0\<close>. The operations below are the NumPy ones the
  three scripts use; each returns \<open>nan\<close> (with a RuntimeWarning, which is not an
  exception) where NumPy does.
\<close>

datatype npfloat = Fin real | PInf | NInf | NaN

fun np_neg :: "npfloat \<Rightarrow> npfloat" where
  "np_neg (Fin a) = Fin (- a)"
| "np_neg PInf = NInf"
| "np_neg NInf = PInf"
| "np_neg NaN = NaN"

fun np_add :: "npfloat \<Rightarrow> npfloat \<Rightarrow> npfloat" where
  "np_add (Fin a) (Fin b) = Fin (a + b)"
| "np_add NaN y = NaN"
| "np_add x NaN = NaN"
| "np_add PInf NInf = NaN"
| "np_add NInf PInf = NaN"
| "np_add PInf y = PInf"
| "np_add NInf y = NInf"
| "np_add (Fin a) y = y"

definition np_sub :: "npfloat \<Rightarrow> npfloat \<Rightarrow> npfloat" where
  "np_sub x y = np_add x (np_neg y)"

text \<open>The sign of a value, and the infinity (or \<open>nan\<close>) a sign stands for.\<close>

fun np_sign :: "npfloat \<Rightarrow> real" where
  "np_sign (Fin a) = sgn a"
| "np_sign PInf = 1"
| "np_sign NInf = - 1"
| "np_sign NaN = 0"

definition inf_of_sign :: "real \<Rightarrow> npfloat" where
  "inf_of_sign s = (if s = 0 then NaN else if 0 < s then PInf else NInf)"

fun np_mul :: "npfloat \<Rightarrow> npfloat \<Rightarrow> npfloat" where
  "np_mul (Fin a) (Fin b) = Fin (a * b)"
| "np_mul NaN y = NaN"
| "np_mul x NaN = NaN"
| "np_mul x y = inf_of_sign (np_sign x * np_sign y)"

text \<open>
  Division of NumPy scalars: a zero divisor gives an infinity of the dividend's sign, and
  \<open>0 / 0\<close> gives \<open>nan\<close>; nothing is raised.
\<close>

fun np_div :: "npfloat \<Rightarrow> npfloat \<Rightarrow> npfloat" where
  "np_div (Fin a) (Fin b) = (if b = 0 then inf_of_sign a else Fin (a / b))"
| "np_div NaN y = NaN"
| "np_div x NaN = NaN"
| "np_div (Fin a) y = Fin 0"
| "np_div x (Fin b) = inf_of_sign (np_sign x * (if 0 \<le> b then 1 else - 1))"
| "np_div x y = NaN"

fun np_sqrt :: "npfloat \<Rightarrow> npfloat" where
  "np_sqrt (Fin a) = (if a < 0 then NaN else Fin (sqrt a))"
| "np_sqrt PInf = PInf"
| "np_sqrt NInf = NaN"
| "np_sqrt NaN = NaN"

fun np_arccos :: "npfloat \<Rightarrow> npfloat" where
  "np_arccos (Fin a) = (if - 1 \<le> a \<and> a \<le> 1 then Fin (arccos a) else NaN)"
| "np_arccos x = NaN"

fun np_abs :: "npfloat \<Rightarrow> npfloat" where
  "np_abs (Fin a) = Fin \<bar>a\<bar>"
| "np_abs PInf = PInf"
| "np_abs NInf = PInf"
| "np_abs NaN = NaN"

text \<open>Comparisons: every comparison with \<open>nan\<close> is false.\<close>

fun np_ge :: "npfloat \<Rightarrow> npfloat \<Rightarrow> bool" where
  "np_ge (Fin a) (Fin b) = (b \<le> a)"
| "np_ge NaN y = False"
| "np_ge x NaN = False"
| "np_ge PInf y = True"
| "np_ge x NInf = True"
| "np_ge x y = False"

definition np_gt :: "npfloat \<Rightarrow> npfloat \<Rightarrow> bool" where
  "np_gt x y = (np_ge x y \<and> x \<noteq> y)"

text \<open>\<open>m**2\<close> on a float64.\<close>

definition np_sq :: "npfloat \<Rightarrow> npfloat" where
  "np_sq m = np_mul m m"

text \<open>
  The harmonic index reaches the solver either as a Python \<open>int\<close> (the literals
  \<open>N_e = 3\<close>, \<open>solve_for_mass_proxy(2)\<close>) or as a \<open>numpy.int64\<close> (the elements of
  \<open>np.arange\<close>). The two differ in one place: \<open>1.0 / (np.pi * N)\<close> at \<open>N = 0\<close> raises
  ZeroDivisionError on Python floats and gives \<open>inf\<close> on NumPy ones. The sweeps stay far
  from the limits of int64, so both are unbounded integers here.
\<close>

datatype index = PyInt int | NpInt int

fun ival :: "index \<Rightarrow> int" where
  "ival (PyInt n) = n"
| "ival (NpInt n) = n"

text \<open>
  The exceptions the scripts can raise, followed by the three error kinds of the
  specification. No function of the scripts raises one of the latter three; they are
  here so that this can be stated.
\<close>

datatype error =
  ZeroDivisionError | ValueError | IndexError
  | InvalidIndex | SolverDivergence | EmptySpectrum

text \<open>\<open>np.arange(start, stop)\<close> on integers: the half-open range.\<close>

definition np_arange :: "int \<Rightarrow> int \<Rightarrow> int list" where
  "np_arange start stop = [start..stop - 1]"

text \<open>
  \<open>np.argmin\<close> of a one-dimensional float array: ValueError on an empty array, the index
  of the first \<open>nan\<close> when there is one, the first index of the minimum otherwise. The
  loop carries the running minimum \<open>mp\<close>, its index and the index of the next element.
\<close>

fun argmin_loop :: "npfloat \<Rightarrow> nat \<Rightarrow> nat \<Rightarrow> npfloat list \<Rightarrow> nat" where
  "argmin_loop mp min_ind i [] = min_ind"
| "argmin_loop mp min_ind i (x # xs) =
     (if \<not> np_ge x mp
      then (if x = NaN then i else argmin_loop x i (Suc i) xs)
      else argmin_loop mp min_ind (Suc i) xs)"

definition np_argmin :: "npfloat list \<Rightarrow> error + nat" where
  "np_argmin a =
     (case a of
        [] \<Rightarrow> Inl ValueError
      | x # xs \<Rightarrow> if x = NaN then Inr 0 else Inr (argmin_loop x 0 1 xs))"

section \<open>The root finder\<close>

text \<open>
  \<open>scipy.optimize.fsolve\<close> is a parameter: MINPACK's hybrd, which maps the function and
  the starting point to its final iterate and a status (1: converged; 2 to 5: iteration
  budget exhausted or no progress). With \<open>full_output\<close> off, \<open>fsolve\<close> warns on a status
  of 2 to 5 and returns the iterate alone; the scripts read its single component.
\<close>

type_synonym hybrd = "(npfloat \<Rightarrow> npfloat) \<Rightarrow> npfloat \<Rightarrow> npfloat \<times> int"

definition fsolve :: "hybrd \<Rightarrow> (npfloat \<Rightarrow> npfloat) \<Rightarrow> npfloat \<Rightarrow> npfloat" where
  "fsolve solver f x0 = fst (solver f x0)"

text \<open>\<open>guess = 1.0 / (np.pi * N)\<close>, as all three scripts compute it.\<close>

fun guess :: "index \<Rightarrow> error + npfloat" where
  "guess (PyInt n) =
     (if n = 0 then Inl ZeroDivisionError else Inr (Fin (1 / (pi * real_of_int n))))"
| "guess (NpInt n) = Inr (np_div (Fin 1) (Fin (pi * real_of_int n)))"

section \<open>\<^verbatim>\<open>mass_spectrum.py\<close>\<close>

text \<open>\<open>func = lambda m: np.sqrt(1 - m**2) - m * (np.pi * N - np.arccos(-m))\<close>\<close>

definition func :: "index \<Rightarrow> npfloat \<Rightarrow> npfloat" where
  "func N m =
     np_sub (np_sqrt (np_sub (Fin 1) (np_sq m)))
       (np_mul m (np_sub (Fin (pi * real_of_int (ival N))) (np_arccos (np_neg m))))"

definition solve_drift :: "hybrd \<Rightarrow> index \<Rightarrow> error + npfloat" where
  "solve_drift solver N =
     (case guess N of
        Inl e \<Rightarrow> Inl e
      | Inr g \<Rightarrow> Inr (fsolve solver (func N) g))"

definition get_mass_proxy :: "hybrd \<Rightarrow> index \<Rightarrow> error + npfloat" where
  "get_mass_proxy solver N =
     (case solve_drift solver N of
        Inl e \<Rightarrow> Inl e
      | Inr m \<Rightarrow>
          let v_rot = np_sqrt (np_sub (Fin 1) (np_sq m))
          in Inr (np_mul (Fin (real_of_int (ival N))) v_rot))"

text \<open>
  The loop of step 5: \<open>mass_ratios\<close> grows by one ratio for each \<open>n\<close> of \<open>n_values\<close>; an
  exception leaves the loop.
\<close>

fun sweep :: "hybrd \<Rightarrow> npfloat \<Rightarrow> npfloat list \<Rightarrow> int list \<Rightarrow> error + npfloat list" where
  "sweep solver mass_proxy_e mass_ratios [] = Inr mass_ratios"
| "sweep solver mass_proxy_e mass_ratios (n # ns) =
     (case get_mass_proxy solver (NpInt n) of
        Inl e \<Rightarrow> Inl e
      | Inr m_proxy \<Rightarrow>
          sweep solver mass_proxy_e (mass_ratios @ [np_div m_proxy mass_proxy_e]) ns)"

text \<open>
  Steps 4 and 5 of \<open>analyze_mass_spectrum\<close>, with the anchor index and the two arguments
  of \<open>np.arange\<close> as parameters. The only effect besides the returned curve is the line
  printed before the loop; standard output is the list of lines printed so far.
\<close>

definition generate ::
  "hybrd \<Rightarrow> int \<Rightarrow> int \<Rightarrow> int \<Rightarrow> string list \<Rightarrow> string list \<times> (error + npfloat list)" where
  "generate solver N_e start stop out =
     (case get_mass_proxy solver (PyInt N_e) of
        Inl e \<Rightarrow> (out, Inl e)
      | Inr mass_proxy_e \<Rightarrow>
          (out @ [''Generating Mass Spectrum...''],
           sweep solver mass_proxy_e [] (np_arange start stop)))"

text \<open>The script's own values: \<open>N_e = 3\<close> and \<open>n_values = np.arange(2, 12000)\<close>.\<close>

definition N_e :: int where
  "N_e = 3"

definition n_values :: "int list" where
  "n_values = np_arange 2 12000"

definition mass_spectrum :: "hybrd \<Rightarrow> string list \<Rightarrow> string list \<times> (error + npfloat list)" where
  "mass_spectrum solver out = generate solver N_e 2 12000 out"

text \<open>
  Step 6, for one target: \<open>idx = np.argmin(np.abs(mass_ratios - target))\<close>, then
  \<open>n_values[idx]\<close> and \<open>mass_ratios[idx]\<close>.
\<close>

definition find_match :: "int list \<Rightarrow> npfloat list \<Rightarrow> npfloat \<Rightarrow> error + int \<times> npfloat" where
  "find_match nvals mass_ratios target =
     (case np_argmin (map (\<lambda>r. np_abs (np_sub r target)) mass_ratios) of
        Inl e \<Rightarrow> Inl e
      | Inr idx \<Rightarrow>
          if idx < length nvals \<and> idx < length mass_ratios
          then Inr (nvals ! idx, mass_ratios ! idx)
          else Inl IndexError)"

section \<open>\<^verbatim>\<open>find_the_neutrino.py\<close>\<close>

text \<open>The inner \<open>equation\<close> of \<open>solve_for_mass_proxy\<close>, with its guard on \<open>abs(m) > 1\<close>.\<close>

definition equation_nu :: "index \<Rightarrow> npfloat \<Rightarrow> npfloat" where
  "equation_nu N m =
     (if np_gt (np_abs m) (Fin 1) then Fin 100
      else np_sub (np_sqrt (np_sub (Fin 1) (np_sq m)))
             (np_mul m (np_sub (Fin (pi * real_of_int (ival N))) (np_arccos (np_neg m)))))"

definition solve_for_mass_proxy :: "hybrd \<Rightarrow> index \<Rightarrow> error + npfloat" where
  "solve_for_mass_proxy solver N =
     (case guess N of
        Inl e \<Rightarrow> Inl e
      | Inr g \<Rightarrow>
          let m = fsolve solver (equation_nu N) g
          in Inr (np_mul (Fin (real_of_int (ival N))) (np_sqrt (np_sub (Fin 1) (np_sq m)))))"

section \<open>\<^verbatim>\<open>quantized_spectrum.py\<close>\<close>

text \<open>\<open>equation(m, N)\<close> of \<open>plot_drift_spectrum\<close>: the same formula, without a guard.\<close>

definition equation :: "npfloat \<Rightarrow> index \<Rightarrow> npfloat" where
  "equation m N =
     np_sub (np_sqrt (np_sub (Fin 1) (np_sq m)))
       (np_mul m (np_sub (Fin (pi * real_of_int (ival N))) (np_arccos (np_neg m))))"

text \<open>
  One pass of the first loop: the root for one \<open>N\<close> of \<open>N_values\<close>, a \<open>numpy.int64\<close>, so
  the guess is a NumPy division.
\<close>

definition drift_root :: "hybrd \<Rightarrow> int \<Rightarrow> npfloat" where
  "drift_root solver N =
     fsolve solver (\<lambda>m. equation m (NpInt N)) (np_div (Fin 1) (Fin (pi * real_of_int N)))"

definition m_values :: "hybrd \<Rightarrow> int list \<Rightarrow> npfloat list" where
  "m_values solver Ns = map (drift_root solver) Ns"

text \<open>
  The second loop: \<open>for i in range(len(m_values) - 1)\<close>, appending
  \<open>m_values[i] - m_values[i+1]\<close>. On an empty list \<open>range(-1)\<close> is empty.
\<close>

definition spacings :: "npfloat list \<Rightarrow> npfloat list" where
  "spacings ms = map (\<lambda>i. np_sub (ms ! i) (ms ! (i + 1))) [0..<length ms - 1]"

text \<open>
  The spacing curve as it is plotted, \<open>N_values[:-1]\<close> against \<open>spacings\<close>, for the range
  \<open>np.arange(start, stop)\<close>; the script's own range is \<open>np.arange(1, 21)\<close>.
\<close>

definition spacing_curve :: "hybrd \<Rightarrow> int \<Rightarrow> int \<Rightarrow> (int \<times> npfloat) list" where
  "spacing_curve solver start stop =
     (let N_values = np_arange start stop
      in zip (butlast N_values) (spacings (m_values solver N_values)))"

section \<open>Solver outcomes used in the examples\<close>

text \<open>A run that stops at its starting point and reports convergence.\<close>

definition guess_solver :: hybrd where
  "guess_solver f x0 = (x0, 1)"

text \<open>
  A run that reports convergence at \<open>m = 1\<close>, the boundary of the domain. For \<open>N = 1\<close>
  this is the exact root of the equation.
\<close>

definition boundary_solver :: hybrd where
  "boundary_solver f x0 = (Fin 1, 1)"

text \<open>A run that exhausts its iteration budget (status 2) outside the domain.\<close>

definition diverged_solver :: hybrd where
  "diverged_solver f x0 = (Fin 2, 2)"

section \<open>The stability equation over the reals\<close>

text \<open>
  The formula of \<open>func\<close> and of the two \<open>equation\<close>s, read over the reals, with the
  index as a real. It agrees with them on the domain \<open>\<bar>x\<bar> \<le> 1\<close>, where no operation
  returns \<open>nan\<close>.
\<close>

definition stability :: "real \<Rightarrow> real \<Rightarrow> real" where
  "stability k x = sqrt (1 - x\<^sup>2) - x * (pi * k - arccos (- x))"

section \<open>Evaluating the equation\<close>

lemma sq_le_one_iff: "x * x \<le> 1 \<longleftrightarrow> \<bar>x\<bar> \<le> (1::real)"
  using abs_square_le_1[of x] by (simp add: power2_eq_square)

lemma func_in_domain:
  "\<bar>x\<bar> \<le> 1 \<Longrightarrow> func N (Fin x) = Fin (stability (real_of_int (ival N)) x)"
  using sq_le_one_iff[of x]
  by (auto simp: func_def stability_def np_sub_def np_sq_def power2_eq_square abs_le_iff)

lemma func_outside_domain: "1 < \<bar>x\<bar> \<Longrightarrow> func N (Fin x) = NaN"
  using sq_le_one_iff[of x]
  by (auto simp: func_def np_sub_def np_sq_def)

lemma func_root:
  assumes "func N (Fin x) = Fin 0"
  shows "\<bar>x\<bar> \<le> 1 \<and> stability (real_of_int (ival N)) x = 0"
proof (cases "\<bar>x\<bar> \<le> 1")
  case True
  with assms show ?thesis by (simp add: func_in_domain)
next
  case False
  then have "func N (Fin x) = NaN" by (simp add: func_outside_domain)
  with assms show ?thesis by simp
qed

lemma equation_eq_func: "equation m N = func N m"
  by (simp add: equation_def func_def)

lemma equation_nu_in_domain:
  "\<bar>x\<bar> \<le> 1 \<Longrightarrow> equation_nu N (Fin x) = func N (Fin x)"
  by (simp add: equation_nu_def func_def np_gt_def)

lemma equation_nu_outside_domain: "1 < \<bar>x\<bar> \<Longrightarrow> equation_nu N (Fin x) = Fin 100"
  by (simp add: equation_nu_def np_gt_def)

section \<open>The solver call\<close>

lemma guess_nonzero:
  "ival N \<noteq> 0 \<Longrightarrow> guess N = Inr (Fin (1 / (pi * real_of_int (ival N))))"
  by (cases N) simp_all

lemma solve_drift_nonzero:
  "ival N \<noteq> 0 \<Longrightarrow>
   solve_drift solver N = Inr (fst (solver (func N) (Fin (1 / (pi * real_of_int (ival N))))))"
  by (simp add: solve_drift_def guess_nonzero fsolve_def)

lemma func_index_kind: "func (NpInt n) = func (PyInt n)"
  by (rule ext) (simp add: func_def)

lemma solve_drift_index_kind:
  "n \<noteq> 0 \<Longrightarrow> solve_drift solver (NpInt n) = solve_drift solver (PyInt n)"
  by (simp add: solve_drift_nonzero func_index_kind)

lemma get_mass_proxy_index_kind:
  "n \<noteq> 0 \<Longrightarrow> get_mass_proxy solver (NpInt n) = get_mass_proxy solver (PyInt n)"
  by (simp add: get_mass_proxy_def solve_drift_index_kind split: sum.splits)

lemma get_mass_proxy_np: "\<exists>p. get_mass_proxy solver (NpInt n) = Inr p"
  by (simp add: get_mass_proxy_def solve_drift_def Let_def)

lemma get_mass_proxy_in_domain:
  assumes "solve_drift solver N = Inr (Fin x)" "\<bar>x\<bar> \<le> 1"
  shows "get_mass_proxy solver N = Inr (Fin (real_of_int (ival N) * sqrt (1 - x\<^sup>2)))"
  using assms sq_le_one_iff[of x]
  by (simp add: get_mass_proxy_def np_sub_def np_sq_def power2_eq_square)

lemma sweep_value:
  "sweep solver e acc ns =
     Inr (acc @ map (\<lambda>n. np_div (projr (get_mass_proxy solver (NpInt n))) e) ns)"
proof (induction ns arbitrary: acc)
  case Nil
  show ?case by simp
next
  case (Cons n ns)
  obtain p where p: "get_mass_proxy solver (NpInt n) = Inr p"
    using get_mass_proxy_np by blast
  show ?case by (simp add: p Cons.IH)
qed

section \<open>Ranges and the sweep\<close>

lemma length_np_arange: "length (np_arange start stop) = nat (stop - start)"
  by (simp add: np_arange_def)

lemma nth_np_arange:
  "k < length (np_arange start stop) \<Longrightarrow> np_arange start stop ! k = start + int k"
  by (simp add: np_arange_def nth_upto)

lemma set_np_arange: "set (np_arange start stop) = {start..<stop}"
  by (auto simp: np_arange_def)

lemma distinct_np_arange: "distinct (np_arange start stop)"
  by (simp add: np_arange_def)

lemma sorted_np_arange: "sorted_wrt (<) (np_arange start stop)"
  by (simp add: np_arange_def)

lemma butlast_np_arange: "butlast (np_arange start stop) = np_arange start (stop - 1)"
proof (cases "start < stop")
  case True
  then have "[start..stop - 1] = [start..stop - 1 - 1] @ [stop - 1]"
    using upto_rec2[of start "stop - 1"] by simp
  then show ?thesis by (simp add: np_arange_def)
next
  case False
  then show ?thesis by (simp add: np_arange_def)
qed

lemma spacings_m_values:
  "spacings (m_values solver (np_arange start stop)) =
     map (\<lambda>N. np_sub (drift_root solver N) (drift_root solver (N + 1))) (np_arange start (stop - 1))"
proof (rule nth_equalityI)
  show "length (spacings (m_values solver (np_arange start stop))) =
    length (map (\<lambda>N. np_sub (drift_root solver N) (drift_root solver (N + 1))) (np_arange start (stop - 1)))"
    by (auto simp: spacings_def m_values_def length_np_arange)
next
  fix i assume "i < length (spacings (m_values solver (np_arange start stop)))"
  then have i: "i < nat (stop - start) - 1"
    by (simp add: spacings_def m_values_def length_np_arange)
  then have "i < length (np_arange start stop)" "i + 1 < length (np_arange start stop)"
    "i < length (np_arange start (stop - 1))"
    by (auto simp: length_np_arange)
  then show "spacings (m_values solver (np_arange start stop)) ! i =
    map (\<lambda>N. np_sub (drift_root solver N) (drift_root solver (N + 1))) (np_arange start (stop - 1)) ! i"
    using i by (simp add: spacings_def m_values_def nth_np_arange length_np_arange add.commute add.left_commute)
qed

lemma generate_value:
  "Na \<noteq> 0 \<Longrightarrow>
   snd (generate solver Na start stop out) =
     Inr (map (\<lambda>n. np_div (projr (get_mass_proxy solver (NpInt n)))
                    (projr (get_mass_proxy solver (PyInt Na))))
            (np_arange start stop))"
  using get_mass_proxy_np[of solver Na]
  by (auto simp: generate_def sweep_value get_mass_proxy_index_kind)

section \<open>The first minimum\<close>

lemma argmin_loop_fin:
  "(argmin_loop (Fin m) mi i (map Fin ys) = mi \<and> (\<forall>y\<in>set ys. m \<le> y))
   \<or> (\<exists>j<length ys. argmin_loop (Fin m) mi i (map Fin ys) = i + j \<and> ys ! j < m
         \<and> (\<forall>y\<in>set ys. ys ! j \<le> y) \<and> (\<forall>l<j. ys ! j < ys ! l))"
proof (induction ys arbitrary: m mi i)
  case Nil
  show ?case by simp
next
  case (Cons y ys)
  show ?case
  proof (cases "m \<le> y")
    case True
    from Cons.IH[of m mi "Suc i"] show ?thesis
    proof
      assume "argmin_loop (Fin m) mi (Suc i) (map Fin ys) = mi \<and> (\<forall>y\<in>set ys. m \<le> y)"
      with True show ?thesis by simp
    next
      assume "\<exists>j<length ys. argmin_loop (Fin m) mi (Suc i) (map Fin ys) = Suc i + j \<and> ys ! j < m
         \<and> (\<forall>y\<in>set ys. ys ! j \<le> y) \<and> (\<forall>l<j. ys ! j < ys ! l)"
      then obtain j where j: "j < length ys"
        "argmin_loop (Fin m) mi (Suc i) (map Fin ys) = Suc i + j" "ys ! j < m"
        "\<forall>y\<in>set ys. ys ! j \<le> y" "\<forall>l<j. ys ! j < ys ! l" by blast
      have "\<forall>l<Suc j. (y # ys) ! Suc j < (y # ys) ! l"
        using j True by (auto simp: less_Suc_eq_0_disj)
      moreover have "\<forall>z\<in>set (y # ys). (y # ys) ! Suc j \<le> z"
        using j True by auto
      moreover have "argmin_loop (Fin m) mi i (map Fin (y # ys)) = i + Suc j"
        using j True by simp
      moreover have "Suc j < length (y # ys)" "(y # ys) ! Suc j < m" using j by auto
      ultimately show ?thesis by blast
    qed
  next
    case False
    from Cons.IH[of y i "Suc i"] show ?thesis
    proof
      assume "argmin_loop (Fin y) i (Suc i) (map Fin ys) = i \<and> (\<forall>z\<in>set ys. y \<le> z)"
      then have "argmin_loop (Fin m) mi i (map Fin (y # ys)) = i + 0"
        "\<forall>z\<in>set (y # ys). (y # ys) ! 0 \<le> z" "(y # ys) ! 0 < m"
        using False by auto
      then show ?thesis by (intro disjI2 exI[of _ 0]) simp
    next
      assume "\<exists>j<length ys. argmin_loop (Fin y) i (Suc i) (map Fin ys) = Suc i + j \<and> ys ! j < y
         \<and> (\<forall>z\<in>set ys. ys ! j \<le> z) \<and> (\<forall>l<j. ys ! j < ys ! l)"
      then obtain j where j: "j < length ys"
        "argmin_loop (Fin y) i (Suc i) (map Fin ys) = Suc i + j" "ys ! j < y"
        "\<forall>z\<in>set ys. ys ! j \<le> z" "\<forall>l<j. ys ! j < ys ! l" by blast
      have "\<forall>l<Suc j. (y # ys) ! Suc j < (y # ys) ! l"
        using j by (auto simp: less_Suc_eq_0_disj)
      moreover have "\<forall>z\<in>set (y # ys). (y # ys) ! Suc j \<le> z"
        using j by auto
      moreover have "argmin_loop (Fin m) mi i (map Fin (y # ys)) = i + Suc j"
        using j False by simp
      moreover have "Suc j < length (y # ys)" "(y # ys) ! Suc j < m" using j False by auto
      ultimately show ?thesis by blast
    qed
  qed
qed

lemma np_argmin_fin:
  assumes "ys \<noteq> []"
  shows "\<exists>k<length ys. np_argmin (map Fin ys) = Inr k
           \<and> (\<forall>j<length ys. ys ! k \<le> ys ! j) \<and> (\<forall>j<k. ys ! k < ys ! j)"
proof -
  from assms obtain y zs where ys: "ys = y # zs" by (cases ys) auto
  from argmin_loop_fin[of y 0 1 zs] show ?thesis
  proof
    assume a: "argmin_loop (Fin y) 0 1 (map Fin zs) = 0 \<and> (\<forall>z\<in>set zs. y \<le> z)"
    then have "\<forall>j<length ys. ys ! 0 \<le> ys ! j"
      by (auto simp: ys nth_Cons split: nat.splits)
    with a show ?thesis by (intro exI[of _ 0]) (simp add: ys np_argmin_def)
  next
    assume "\<exists>j<length zs. argmin_loop (Fin y) 0 1 (map Fin zs) = 1 + j \<and> zs ! j < y
         \<and> (\<forall>z\<in>set zs. zs ! j \<le> z) \<and> (\<forall>l<j. zs ! j < zs ! l)"
    then obtain j where j: "j < length zs"
      "argmin_loop (Fin y) 0 1 (map Fin zs) = 1 + j" "zs ! j < y"
      "\<forall>z\<in>set zs. zs ! j \<le> z" "\<forall>l<j. zs ! j < zs ! l" by blast
    have "\<forall>l<length ys. ys ! Suc j \<le> ys ! l"
      using j by (auto simp: ys nth_Cons split: nat.splits)
    moreover have "\<forall>l<Suc j. ys ! Suc j < ys ! l"
      using j by (auto simp: ys less_Suc_eq_0_disj)
    moreover have "np_argmin (map Fin ys) = Inr (Suc j)" "Suc j < length ys"
      using j by (simp_all add: ys np_argmin_def)
    ultimately show ?thesis by blast
  qed
qed

section \<open>Roots of the stability equation\<close>

text \<open>
  On \<open>(-1, 1)\<close> the derivative of the equation in \<open>x\<close> is \<open>- (pi * k - arccos (- x))\<close>:
  the two terms from the square root and from the arc cosine cancel. For \<open>k \<ge> 1\<close> it
  is negative, so the equation is strictly decreasing on \<open>[-1, 1]\<close>; it is positive on
  \<open>[-1, 0]\<close>, and raising the index lowers its value at every positive \<open>x\<close>.
\<close>

lemma stability_deriv:
  assumes "- 1 < x" "x < 1"
  shows "DERIV (stability k) x :> - (pi * k - arccos (- x))"
proof -
  have sq: "x\<^sup>2 < 1" using assms by (simp add: abs_square_less_1 abs_less_iff)
  then have pos: "0 < sqrt (1 - x\<^sup>2)" by simp
  have "DERIV (\<lambda>x. sqrt (1 - x\<^sup>2) - x * (pi * k - arccos (- x))) x :> - (pi * k - arccos (- x))"
    using assms sq pos
    by (auto intro!: derivative_eq_intros simp: field_simps)
  then show ?thesis
    by (simp add: stability_def[abs_def])
qed

lemma stability_continuous: "continuous_on {- 1..1} (stability k)"
  unfolding stability_def[abs_def]
  by (intro continuous_intros) auto

lemma stability_decreasing:
  assumes k: "1 \<le> k" and ab: "- 1 \<le> a" "a < b" "b \<le> 1"
  shows "stability k b < stability k a"
proof (rule DERIV_neg_imp_decreasing_open [OF ab(2)])
  fix x assume x: "a < x" "x < b"
  then have dom: "- 1 < x" "x < 1" using ab by auto
  have "arccos (- x) < pi"
    using dom arccos_lt_bounded[of "- x"] by simp
  also have "pi \<le> pi * k" using k by simp
  finally have "- (pi * k - arccos (- x)) < 0" by simp
  with stability_deriv[OF dom, of k]
  show "\<exists>y. DERIV (stability k) x :> y \<and> y < 0" by blast
next
  show "continuous_on {a..b} (stability k)"
    by (rule continuous_on_subset [OF stability_continuous]) (use ab in auto)
qed

lemma stability_pos_of_nonpos:
  assumes k: "1 \<le> k" and x: "- 1 \<le> x" "x \<le> 0"
  shows "0 < stability k x"
proof (cases "x = - 1")
  case True
  then show ?thesis using k by (simp add: stability_def)
next
  case False
  with x have dom: "- 1 < x" "x \<le> 0" by auto
  then have "x\<^sup>2 < 1" by (simp add: abs_square_less_1 abs_less_iff)
  then have pos: "0 < sqrt (1 - x\<^sup>2)" by simp
  have "arccos (- x) \<le> pi" using dom by (intro arccos_ubound) auto
  also have "pi \<le> pi * k" using k by simp
  finally have "0 \<le> pi * k - arccos (- x)" by simp
  then have "x * (pi * k - arccos (- x)) \<le> 0"
    using dom by (simp add: mult_nonpos_nonneg)
  with pos show ?thesis unfolding stability_def by linarith
qed

lemma stability_index_shift:
  "stability k2 x = stability k1 x - x * pi * (k2 - k1)"
  by (simp add: stability_def algebra_simps)

lemma stability_roots_decreasing:
  assumes k: "1 \<le> k1" "k1 < k2"
    and dom: "\<bar>x1\<bar> \<le> 1" "\<bar>x2\<bar> \<le> 1"
    and r1: "stability k1 x1 = 0" and r2: "stability k2 x2 = 0"
  shows "x2 < x1"
proof (rule ccontr)
  assume "\<not> x2 < x1"
  then have le: "x1 \<le> x2" by simp
  have x1: "0 < x1"
    using stability_pos_of_nonpos[of k1 x1] k dom r1 by (cases "x1 \<le> 0") auto
  have "stability k2 x1 = - (x1 * pi * (k2 - k1))"
    using stability_index_shift[of k2 x1 k1] r1 by simp
  moreover have "0 < x1 * pi * (k2 - k1)" using x1 k by simp
  ultimately have neg: "stability k2 x1 < 0" by simp
  show False
  proof (cases "x1 = x2")
    case True
    with neg r2 show False by simp
  next
    case False
    with le have "x1 < x2" by simp
    then have "stability k2 x2 < stability k2 x1"
      using stability_decreasing[of k2 x1 x2] k dom x1 by auto
    with neg r2 show False by simp
  qed
qed

lemma stability_root_unique:
  assumes k: "1 \<le> k"
    and dom: "\<bar>x\<bar> \<le> 1" "\<bar>y\<bar> \<le> 1"
    and roots: "stability k x = 0" "stability k y = 0"
  shows "x = y"
proof (rule ccontr)
  assume "x \<noteq> y"
  then consider "x < y" | "y < x" by linarith
  then show False
  proof cases
    case 1
    then have "stability k y < stability k x"
      using stability_decreasing[of k x y] k dom by auto
    with roots show False by simp
  next
    case 2
    then have "stability k x < stability k y"
      using stability_decreasing[of k y x] k dom by auto
    with roots show False by simp
  qed
qed


text \<open>
  A sweep of exact roots is strictly descending: the list form of the order of the roots,
  for the first loop of \<open>plot_drift_spectrum\<close>.
\<close>

lemma m_values_strictly_descending:
  assumes start: "1 \<le> start"
    and roots: "\<And>N. start \<le> N \<Longrightarrow> N < stop \<Longrightarrow>
                 \<exists>x. drift_root solver N = Fin x \<and> equation (Fin x) (NpInt N) = Fin 0"
  shows "sorted_wrt (\<lambda>a b. np_gt a b) (m_values solver (np_arange start stop))"
proof -
  have "sorted_wrt (\<lambda>N1 N2. np_gt (drift_root solver N1) (drift_root solver N2))
          (np_arange start stop)"
  proof (rule sorted_wrt_mono_rel [OF _ sorted_np_arange])
    fix N1 N2
    assume mem: "N1 \<in> set (np_arange start stop)" "N2 \<in> set (np_arange start stop)"
      and lt: "N1 < N2"
    then have b: "start \<le> N1" "N1 < stop" "start \<le> N2" "N2 < stop"
      by (simp_all add: set_np_arange)
    obtain x1 where x1: "drift_root solver N1 = Fin x1" "func (NpInt N1) (Fin x1) = Fin 0"
      using roots[OF b(1,2)] by (auto simp: equation_eq_func)
    obtain x2 where x2: "drift_root solver N2 = Fin x2" "func (NpInt N2) (Fin x2) = Fin 0"
      using roots[OF b(3,4)] by (auto simp: equation_eq_func)
    have idx: "1 \<le> real_of_int N1" "real_of_int N1 < real_of_int N2"
      using start b lt by simp_all
    have r1: "\<bar>x1\<bar> \<le> 1" "stability (real_of_int N1) x1 = 0"
      using func_root[OF x1(2)] by simp_all
    have r2: "\<bar>x2\<bar> \<le> 1" "stability (real_of_int N2) x2 = 0"
      using func_root[OF x2(2)] by simp_all
    have "x2 < x1"
      using idx r1(1) r2(1) r1(2) r2(2) by (rule stability_roots_decreasing)
    then show "np_gt (drift_root solver N1) (drift_root solver N2)"
      by (simp add: x1 x2 np_gt_def)
  qed
  then show ?thesis by (simp add: m_values_def sorted_wrt_map)
qed

section \<open>The claims\<close>

subsection \<open>C1: divergence of the solver\<close>

text \<open>
  C1 says that \<open>solve\<close> fails with SolverDivergence when the solver has not converged or
  returns a root with \<open>\<bar>m\<bar> \<ge> 1\<close>. Neither \<open>solve_drift\<close> nor \<open>solve_for_mass_proxy\<close> has
  such a check. With a solver run that ends at \<open>m = 2\<close> with status 2 (budget exhausted),
  the first returns \<open>2\<close> and the second the proxy \<open>nan\<close>. With a run that converges to
  \<open>m = 1\<close>, which for \<open>N = 1\<close> is a zero of the equation, the first returns \<open>1\<close>.
\<close>

theorem solve_drift_accepts_divergence:
  "snd (diverged_solver (func (PyInt 1)) (Fin (1 / pi))) \<noteq> 1
   \<and> solve_drift diverged_solver (PyInt 1) = Inr (Fin 2)
   \<and> solve_drift diverged_solver (PyInt 1) \<noteq> Inl SolverDivergence
   \<and> solve_for_mass_proxy diverged_solver (PyInt 1) = Inr NaN
   \<and> func (PyInt 1) (Fin 1) = Fin 0
   \<and> solve_drift boundary_solver (PyInt 1) = Inr (Fin 1)"
  by (simp add: solve_drift_def solve_for_mass_proxy_def fsolve_def diverged_solver_def
      boundary_solver_def func_def np_sub_def np_sq_def)

text \<open>
  C1 as amended: for every index \<open>N \<ge> 1\<close>, of either kind, and every solver run,
  \<open>solve_drift\<close> returns the final iterate of the run started at \<open>1 / (pi * N)\<close>, whatever
  the status and wherever the iterate lies; it never fails with SolverDivergence, and
  neither does \<open>solve_for_mass_proxy\<close>, which returns a proxy.
\<close>

theorem solve_drift_returns_solver_iterate:
  assumes "1 \<le> ival N"
  shows "solve_drift solver N = Inr (fst (solver (func N) (Fin (1 / (pi * real_of_int (ival N))))))
         \<and> solve_drift solver N \<noteq> Inl SolverDivergence
         \<and> (\<exists>p. solve_for_mass_proxy solver N = Inr p)"
  using assms by (simp add: solve_drift_nonzero solve_for_mass_proxy_def guess_nonzero)

text \<open>At \<open>N = 1\<close>, with the run that ends on the boundary \<open>m = 1\<close>.\<close>

theorem solve_drift_returns_solver_iterate_witness:
  "solve_drift boundary_solver (NpInt 1) = Inr (Fin 1)
   \<and> solve_drift boundary_solver (NpInt 1) \<noteq> Inl SolverDivergence"
  using solve_drift_returns_solver_iterate[of "NpInt 1" boundary_solver]
  by (simp add: boundary_solver_def)

subsection \<open>C2: the penalty outside the domain\<close>

text \<open>
  C2 says that the evaluator returns \<open>100\<close> for every iterate with \<open>\<bar>m\<bar> > 1\<close>. The
  \<open>equation\<close> of \<^verbatim>\<open>find_the_neutrino.py\<close> does; \<open>func\<close> of \<^verbatim>\<open>mass_spectrum.py\<close> and the
  \<open>equation\<close> of \<^verbatim>\<open>quantized_spectrum.py\<close> have no guard, and at \<open>m = 2\<close> they take the
  square root of \<open>- 3\<close> and return \<open>nan\<close>.
\<close>

theorem unguarded_evaluators_return_nan:
  "func (NpInt 1) (Fin 2) = NaN \<and> equation (Fin 2) (NpInt 1) = NaN
   \<and> equation_nu (NpInt 1) (Fin 2) = Fin 100"
  by (simp add: func_def equation_def equation_nu_def np_gt_def np_sub_def np_sq_def)

subsection \<open>C3: the nearest match\<close>

text \<open>
  C3: on a non-empty curve of real ratios over the indices \<open>np.arange(start, stop)\<close>, and
  for every real target, \<open>find_match\<close> returns an entry \<open>(N, ratio)\<close> of the curve whose
  distance to the target is least over the whole curve, and among the entries at that
  distance the one with the smallest \<open>N\<close>.
\<close>

theorem find_match_global_minimum:
  assumes ne: "rs \<noteq> []" and len: "length rs = length (np_arange start stop)"
  shows "\<exists>i<length rs.
           find_match (np_arange start stop) (map Fin rs) (Fin t) = Inr (start + int i, Fin (rs ! i))
           \<and> (\<forall>j<length rs. \<bar>rs ! i - t\<bar> \<le> \<bar>rs ! j - t\<bar>)
           \<and> (\<forall>j<length rs. \<bar>rs ! j - t\<bar> = \<bar>rs ! i - t\<bar> \<longrightarrow> start + int i \<le> start + int j)"
proof -
  let ?ds = "map (\<lambda>r. \<bar>r - t\<bar>) rs"
  have dist: "map (\<lambda>r. np_abs (np_sub r (Fin t))) (map Fin rs) = map Fin ?ds"
    by (simp add: np_sub_def)
  from ne have "?ds \<noteq> []" by simp
  from np_argmin_fin[OF this] obtain k where kd: "k < length ?ds"
    "np_argmin (map Fin ?ds) = Inr k"
    "\<forall>j<length ?ds. ?ds ! k \<le> ?ds ! j" "\<forall>j<k. ?ds ! k < ?ds ! j"
    by blast
  have k: "k < length rs" "\<forall>j<length rs. \<bar>rs ! k - t\<bar> \<le> \<bar>rs ! j - t\<bar>"
    "\<forall>j<k. \<bar>rs ! k - t\<bar> < \<bar>rs ! j - t\<bar>"
    using kd(1,3,4) by auto
  have "find_match (np_arange start stop) (map Fin rs) (Fin t) = Inr (start + int k, Fin (rs ! k))"
    unfolding find_match_def dist kd(2) using k(1) len by (simp add: nth_np_arange)
  moreover have "\<forall>j<length rs. \<bar>rs ! j - t\<bar> = \<bar>rs ! k - t\<bar> \<longrightarrow> start + int k \<le> start + int j"
  proof (intro allI impI)
    fix j assume "j < length rs" "\<bar>rs ! j - t\<bar> = \<bar>rs ! k - t\<bar>"
    with k(3) have "\<not> j < k" by auto
    then show "start + int k \<le> start + int j" by simp
  qed
  ultimately show ?thesis using k(1,2) by blast
qed

text \<open>
  The curve \<open>{N = 2: 0.8, N = 3: 1.0, N = 4: 3.2}\<close> matched against \<open>3.15\<close>, and a tie
  between \<open>N = 2\<close> and \<open>N = 4\<close>.
\<close>

theorem find_match_global_minimum_witness:
  "find_match (np_arange 2 5) [Fin 0.8, Fin 1, Fin 3.2] (Fin 3.15) = Inr (4, Fin 3.2)
   \<and> find_match (np_arange 2 5) [Fin 1, Fin 3, Fin 1] (Fin 2) = Inr (2, Fin 1)"
proof -
  have "np_arange 2 5 = [2, 3, 4]" by code_simp
  then show ?thesis
    using find_match_global_minimum[of "[0.8, 1, 3.2]" 2 5 "3.15"]
    by (simp add: find_match_def np_argmin_def np_sub_def)
qed

subsection \<open>C4: the indices of the curve\<close>

text \<open>
  C4 says that the curve has exactly one entry for every \<open>N\<close> from \<open>N_min\<close> to \<open>N_max\<close>
  inclusive, in strictly ascending order. The comment of step 5 announces the curve
  \<open>for N=1 to 12,000\<close>; the range is \<open>np.arange(2, 12000)\<close>. The curve of the script has
  one ratio for each index, the indices are distinct and strictly ascending, and they
  are \<open>2, \<dots>, 11999\<close>: neither \<open>1\<close> nor \<open>12000\<close> has an entry.
\<close>

theorem sweep_range_excludes_stop:
  "set n_values = {2..11999} \<and> distinct n_values \<and> sorted_wrt (<) n_values
   \<and> 1 \<notin> set n_values \<and> 12000 \<notin> set n_values
   \<and> (\<exists>rs. snd (mass_spectrum solver out) = Inr rs \<and> length rs = length n_values)"
proof -
  have "set n_values = {2..11999}"
    unfolding n_values_def set_np_arange by auto
  moreover have "\<exists>rs. snd (mass_spectrum solver out) = Inr rs \<and> length rs = length n_values"
    unfolding n_values_def mass_spectrum_def N_e_def
    by (simp add: generate_value length_np_arange)
  ultimately show ?thesis
    by (simp add: n_values_def distinct_np_arange sorted_np_arange)
qed

subsection \<open>C5: invalid indices and bounds\<close>

text \<open>
  C5 says that \<open>N < 1\<close> given to \<open>solve\<close>, and bounds violating
  \<open>N_min \<le> N_anchor \<le> N_max\<close> given to \<open>generate\<close>, raise InvalidIndex. Neither function
  checks its arguments: \<open>solve_drift\<close> at \<open>N = - 1\<close> returns what the solver returns, and
  the sweep with anchor \<open>4\<close> over \<open>np.arange(5, 3)\<close> returns the empty curve.
\<close>

theorem invalid_index_accepted:
  "solve_drift guess_solver (PyInt (- 1)) = Inr (Fin (- (1 / pi)))
   \<and> snd (generate guess_solver 4 5 3 []) = Inr []"
  by (simp add: solve_drift_def fsolve_def guess_solver_def generate_def get_mass_proxy_def
      np_arange_def)

text \<open>
  C5 as amended: no index is validated. For every \<open>N < 1\<close> other than \<open>0\<close>,
  \<open>solve_drift\<close> returns the final iterate of the solver run started at \<open>1 / (pi * N)\<close>;
  for every non-zero anchor and all bounds, in range and in order or not, the sweep
  returns a curve, of \<open>stop - start\<close> ratios, or none when \<open>stop \<le> start\<close>.
\<close>

theorem no_index_validation:
  assumes "ival N < 1" "ival N \<noteq> 0" "Na \<noteq> 0"
  shows "solve_drift solver N = Inr (fst (solver (func N) (Fin (1 / (pi * real_of_int (ival N))))))
         \<and> (\<exists>rs. snd (generate solver Na start stop out) = Inr rs
                \<and> length rs = nat (stop - start))"
  using assms by (simp add: solve_drift_nonzero generate_value length_np_arange)

text \<open>At \<open>N = - 2\<close>, and for the anchor \<open>7\<close> over the empty range \<open>np.arange(9, 8)\<close>.\<close>

theorem no_index_validation_witness:
  "solve_drift guess_solver (NpInt (- 2)) = Inr (Fin (- (1 / (pi * 2))))
   \<and> (\<exists>rs. snd (generate guess_solver 7 9 8 []) = Inr rs \<and> length rs = 0)"
  using no_index_validation[of "NpInt (- 2)" 7 guess_solver 9 8 "[]"]
  by (simp add: guess_solver_def)

subsection \<open>C6: the anchor's ratio\<close>

text \<open>
  C6: in a run whose anchor lies in the swept range and whose anchor root lies strictly
  inside \<open>(-1, 1)\<close>, the sweep returns a curve, and the entry of the anchor index is
  exactly \<open>1\<close>: the loop computes for it the same proxy as step 4 and divides it by itself.
\<close>

theorem anchor_ratio_is_one:
  assumes range: "start \<le> Na" "Na < stop" and nz: "Na \<noteq> 0"
    and root: "solve_drift solver (PyInt Na) = Inr (Fin x)" and dom: "\<bar>x\<bar> < 1"
  shows "\<exists>rs. snd (generate solver Na start stop out) = Inr rs
           \<and> length rs = nat (stop - start)
           \<and> rs ! nat (Na - start) = Fin 1"
proof -
  let ?ratio = "\<lambda>n. np_div (projr (get_mass_proxy solver (NpInt n)))
                         (projr (get_mass_proxy solver (PyInt Na)))"
  let ?rs = "map ?ratio (np_arange start stop)"
  have idx: "nat (Na - start) < length (np_arange start stop)"
    using range by (simp add: length_np_arange)
  have "x\<^sup>2 < 1" using dom by (simp add: abs_square_less_1)
  then have "sqrt (1 - x\<^sup>2) \<noteq> 0" by simp
  then have p: "real_of_int Na * sqrt (1 - x\<^sup>2) \<noteq> 0" using nz by simp
  have anchor: "get_mass_proxy solver (PyInt Na) = Inr (Fin (real_of_int Na * sqrt (1 - x\<^sup>2)))"
    using get_mass_proxy_in_domain[OF root] dom by simp
  have "?rs ! nat (Na - start) = ?ratio (np_arange start stop ! nat (Na - start))"
    using idx by simp
  also have "np_arange start stop ! nat (Na - start) = Na"
    using idx range by (simp add: nth_np_arange)
  also have "?ratio Na = Fin 1"
    using p by (simp add: get_mass_proxy_index_kind[OF nz] anchor)
  finally have "?rs ! nat (Na - start) = Fin 1" .
  moreover have "snd (generate solver Na start stop out) = Inr ?rs"
    by (rule generate_value[OF nz])
  moreover have "length ?rs = nat (stop - start)"
    by (simp add: length_np_arange)
  ultimately show ?thesis by blast
qed

text \<open>
  The anchor \<open>3\<close> over \<open>np.arange(2, 6)\<close>, with the run that stops at its starting point
  \<open>1 / (3 * pi)\<close>: the second of the four ratios is \<open>1\<close>.
\<close>

theorem anchor_ratio_is_one_witness:
  "\<exists>rs. snd (generate guess_solver 3 2 6 []) = Inr rs \<and> length rs = 4 \<and> rs ! 1 = Fin 1"
proof -
  have root: "solve_drift guess_solver (PyInt 3) = Inr (Fin (1 / (pi * 3)))"
    by (simp add: solve_drift_def fsolve_def guess_solver_def)
  have "pi * 3 > 1" using pi_ge_two by simp
  then have dom: "\<bar>1 / (pi * 3)\<bar> < 1" by simp
  show ?thesis
    using anchor_ratio_is_one[of 2 3 6 guess_solver "1 / (pi * 3)" "[]", OF _ _ _ root dom]
    by simp
qed

subsection \<open>C7: the order of the roots\<close>



subsection \<open>C8: determinism of the sweep\<close>


subsection \<open>C9: the spacing of consecutive roots\<close>

text \<open>
  C9: over the range \<open>np.arange(start, stop)\<close>, the spacing curve has an entry for \<open>N\<close>
  exactly when \<open>N\<close> and \<open>N + 1\<close> are both in the range, and the entry is the root for \<open>N\<close>
  minus the root for \<open>N + 1\<close>.
\<close>

theorem spacing_curve_lookup:
  "map_of (spacing_curve solver start stop) N =
     (if start \<le> N \<and> N + 1 < stop
      then Some (np_sub (drift_root solver N) (drift_root solver (N + 1)))
      else None)"
proof -
  have "spacing_curve solver start stop =
      map (\<lambda>N. (N, np_sub (drift_root solver N) (drift_root solver (N + 1))))
        (np_arange start (stop - 1))"
    by (simp add: spacing_curve_def butlast_np_arange spacings_m_values zip_map2 zip_same_conv_map)
  then show ?thesis
    by (auto simp: map_of_map_restrict restrict_map_def set_np_arange)
qed

subsection \<open>C10: the guarded evaluator is total\<close>

text \<open>
  C10: for every real \<open>m\<close> the \<open>equation\<close> of \<^verbatim>\<open>find_the_neutrino.py\<close> returns a real
  number, never \<open>nan\<close> or an infinity: the guard answers every \<open>\<bar>m\<bar> > 1\<close>, and for
  \<open>\<bar>m\<bar> \<le> 1\<close> the square root and the arc cosine are taken inside their domains.
\<close>

theorem equation_nu_total: "\<exists>r. equation_nu N (Fin x) = Fin r"
  using sq_le_one_iff[of x]
  by (auto simp: equation_nu_def np_gt_def np_sub_def np_sq_def abs_le_iff)

end
